theory Spec2Isabelle
  imports Main
begin

section \<open>The messenger endpoint: Transceiver and Register\<close>

text \<open>
  A shallow embedding of \<^verbatim>\<open>lib/evasion/messenger/endpoint.py\<close>. A method takes the
  object it is called on and returns the exception it raises (\<open>Inl\<close>) or its normal
  return (\<open>Inr\<close>), the object as the call leaves it (for the methods of the register and
  for a message handler), and the list of things the call did to the outside, in order:
  log records, callback invocations and socket operations. Callbacks are taken not to
  call back into the register they are subscribed to.
\<close>

subsection \<open>Python values, exceptions and observable events\<close>

text \<open>
  The arguments a caller may pass where the code tests their type (\<^verbatim>\<open>isinstance\<close>),
  hashes them (\<^verbatim>\<open>in dict\<close>) or calls them. \<open>PyFunc n\<close> is a callable object with
  identity \<open>n\<close>; a list or a tuple holds the fields of a multipart message, which are
  byte strings.
\<close>

datatype pyobj =
    PyNone
  | PyInt int
  | PyStr string
  | PyFunc nat
  | PyList "string list"
  | PyTuple "string list"

datatype error = ValueError | TypeError | IndexError | KeyError | MessageOutError | ZMQError

datatype log_level = LDebug | LInfo | LWarn | LError | LException

text \<open>The operations on the transient outbound context and socket of \<^verbatim>\<open>message_out\<close>.\<close>

datatype net_op =
    NewContext
  | NewSocket
  | Connect string
  | SendMultipart "string list"
  | CloseSocket
  | TermContext

text \<open>
  \<open>Call cb endpoint_uuid data reply_to\<close> is the invocation
  \<^verbatim>\<open>cb(endpoint_uuid, data, reply_to)\<close>, with \<open>None\<close> for Python's \<^verbatim>\<open>None\<close>.
\<close>

datatype 'j event =
    Log log_level string
  | Call pyobj string 'j "string option"
  | Net net_op

text \<open>
  What the code gets from outside this file: the \<^verbatim>\<open>json\<close> module over decoded values
  of type \<open>'j\<close> (\<open>json_loads\<close> is \<open>None\<close> where \<^verbatim>\<open>json.loads\<close> raises ValueError),
  whether a callable raises on given arguments, and whether a socket operation raises
  ZMQError after the operations done so far on that socket.
\<close>

record 'j env =
  json_loads :: "string \<Rightarrow> 'j option"
  json_dumps :: "'j \<Rightarrow> string"
  cb_raises :: "nat \<Rightarrow> string \<Rightarrow> 'j \<Rightarrow> string option \<Rightarrow> bool"
  zmq_fails :: "net_op list \<Rightarrow> net_op \<Rightarrow> bool"

subsection \<open>Byte strings: strip, upper, lower\<close>

text \<open>
  Python 2 \<^verbatim>\<open>str.strip()\<close> removes leading and trailing bytes for which
  \<^verbatim>\<open>isspace\<close> holds: space, tab, line feed, vertical tab, form feed, carriage return.
  \<^verbatim>\<open>upper\<close> and \<^verbatim>\<open>lower\<close> change the ASCII letters only.
\<close>

definition isspace :: "char \<Rightarrow> bool" where
  "isspace c \<longleftrightarrow>
     c = CHR '' '' \<or> c = CHR 0x09 \<or> c = CHR 0x0A \<or> c = CHR 0x0B \<or> c = CHR 0x0C \<or> c = CHR 0x0D"

definition strip :: "string \<Rightarrow> string" where
  "strip s = rev (dropWhile isspace (rev (dropWhile isspace s)))"

definition ascii_lowercase :: string where
  "ascii_lowercase = ''abcdefghijklmnopqrstuvwxyz''"

definition ascii_uppercase :: string where
  "ascii_uppercase = ''ABCDEFGHIJKLMNOPQRSTUVWXYZ''"

definition upper_char :: "char \<Rightarrow> char" where
  "upper_char c =
     (case map_of (zip ascii_lowercase ascii_uppercase) c of Some u \<Rightarrow> u | None \<Rightarrow> c)"

definition lower_char :: "char \<Rightarrow> char" where
  "lower_char c =
     (case map_of (zip ascii_uppercase ascii_lowercase) c of Some l \<Rightarrow> l | None \<Rightarrow> c)"

definition upper :: "string \<Rightarrow> string" where
  "upper s = map upper_char s"

definition lower :: "string \<Rightarrow> string" where
  "lower s = map lower_char s"

subsection \<open>The frames module\<close>

text \<open>
  Modelled from the spec: \<^verbatim>\<open>frames.sync_message\<close>, of the module \<^verbatim>\<open>frames\<close> that
  \<^verbatim>\<open>endpoint.py\<close> imports and that is not among the sources. The spec's
  \<^verbatim>\<open>encodeSync()\<close> is the one-field frame \<^verbatim>\<open>["SYNC"]\<close>.
\<close>

definition sync_message :: "string list" where
  "sync_message = [''SYNC'']"

text \<open>
  Modelled from the spec: \<^verbatim>\<open>frames.dispatch_message\<close>, of the same missing module. The
  spec's \<^verbatim>\<open>encodeDispatch(originId, signal, data, replyTo)\<close> is
  \<^verbatim>\<open>["DISPATCH", originId, signal, jsonEncode(data), replyTo or "0"]\<close>.
\<close>

definition dispatch_message ::
  "'j env \<Rightarrow> string \<Rightarrow> string \<Rightarrow> 'j \<Rightarrow> string option \<Rightarrow> string list" where
  "dispatch_message E origin_id signal data reply_to =
     [''DISPATCH'', origin_id, signal, json_dumps E data,
      (case reply_to of None \<Rightarrow> ''0'' | Some r \<Rightarrow> if r = [] then ''0'' else r)]"

subsection \<open>Transceiver\<close>

record transceiver =
  exitTime :: bool
  incoming_uri :: string
  outgoing_uri :: string
  idle_timeout :: int

text \<open>\<^verbatim>\<open>Transceiver(config={})\<close>: every setting takes its default.\<close>

definition new_transceiver :: transceiver where
  "new_transceiver =
     \<lparr>exitTime = False, incoming_uri = ''tcp://localhost:15566'',
      outgoing_uri = ''tcp://localhost:15567'', idle_timeout = 2000\<rparr>"

text \<open>
  Socket operations run in order until one raises; the result is whether all of them
  returned, and the operations attempted.
\<close>

fun run_ops :: "(net_op list \<Rightarrow> net_op \<Rightarrow> bool) \<Rightarrow> net_op list \<Rightarrow> net_op list \<Rightarrow> bool \<times> net_op list" where
  "run_ops fails hist [] = (True, [])"
| "run_ops fails hist (x # xs) =
     (if fails hist x then (False, [x])
      else (case run_ops fails (hist @ [x]) xs of (ok, done) \<Rightarrow> (ok, x # done)))"

text \<open>
  \<^verbatim>\<open>Transceiver.message_out\<close>. The context and the socket are made before the
  \<^verbatim>\<open>try\<close>; connect and the two sends are its body; close and term are its
  \<^verbatim>\<open>finally\<close>, which runs whether the body raised or not.
\<close>

definition isinstance_list :: "pyobj \<Rightarrow> bool" where
  "isinstance_list x = (case x of PyList _ \<Rightarrow> True | _ \<Rightarrow> False)"

definition isinstance_tuple :: "pyobj \<Rightarrow> bool" where
  "isinstance_tuple x = (case x of PyTuple _ \<Rightarrow> True | _ \<Rightarrow> False)"

definition items :: "pyobj \<Rightarrow> string list" where
  "items x = (case x of PyList m \<Rightarrow> m | PyTuple m \<Rightarrow> m | _ \<Rightarrow> [])"

definition message_out ::
  "'j env \<Rightarrow> transceiver \<Rightarrow> pyobj \<Rightarrow> (error + unit) \<times> 'j event list" where
  "message_out E self message =
     (if isinstance_list message \<or> isinstance_tuple message then
        (case run_ops (zmq_fails E) [] [NewContext, NewSocket] of
           (False, t0) \<Rightarrow> (Inl ZMQError, map Net t0)
         | (True, t0) \<Rightarrow>
             (case run_ops (zmq_fails E) t0
                     [Connect (outgoing_uri self), SendMultipart sync_message,
                      SendMultipart (items message)] of
                (ok1, t1) \<Rightarrow>
                  (case run_ops (zmq_fails E) (t0 @ t1) [CloseSocket, TermContext] of
                     (ok2, t2) \<Rightarrow>
                       (if ok1 \<and> ok2 then Inr () else Inl ZMQError,
                        map Net (t0 @ t1 @ t2)))))
      else (Inl MessageOutError, []))"

text \<open>
  \<^verbatim>\<open>Transceiver.message_in\<close>. The handler is the \<^verbatim>\<open>message_handler\<close> given to the
  constructor (\<open>None\<close> when none was given), a function of the frame and of the state
  \<open>'s\<close> of the object it is bound to. The bare \<^verbatim>\<open>except:\<close> takes every exception.
  The receive loop calls it with \<^verbatim>\<open>tuple(msg)\<close>, a \<open>PyTuple\<close>.
\<close>

definition message_in ::
  "(pyobj \<Rightarrow> 's \<Rightarrow> (error + unit) \<times> 's \<times> 'j event list) option \<Rightarrow> pyobj \<Rightarrow> 's
     \<Rightarrow> (error + unit) \<times> 's \<times> 'j event list" where
  "message_in handler message st =
     (case handler of
        Some h \<Rightarrow>
          (case h message st of
             (Inr u, st', evs) \<Rightarrow> (Inr (), st', Log LDebug ''message_in: message'' # evs)
           | (Inl e, st', evs) \<Rightarrow>
               (Inr (), st',
                Log LDebug ''message_in: message'' # evs @
                [Log LException ''message_in: Error handling received message - '']))
      | None \<Rightarrow> (Inr (), st, [Log LDebug ''message_in: message'']))"

subsection \<open>Register\<close>

record register =
  endpoint_uuid :: string
  subscriptions :: "string \<rightharpoonup> pyobj list"
  transceiver :: transceiver

text \<open>
  \<^verbatim>\<open>Register()\<close>, with the string of the \<^verbatim>\<open>uuid4\<close> it draws given: no
  subscriptions, and a transceiver of its own.
\<close>

definition new_register :: "string \<Rightarrow> register" where
  "new_register uuid =
     \<lparr>endpoint_uuid = uuid, subscriptions = Map.empty, transceiver = new_transceiver\<rparr>"

text \<open>\<^verbatim>\<open>Register.validate_signal\<close>: only a \<^verbatim>\<open>basestring\<close> passes the first test.\<close>

definition validate_signal :: "pyobj \<Rightarrow> error + string" where
  "validate_signal signal =
     (case signal of
        PyStr s \<Rightarrow>
          (let signal' = upper (strip s) in
           if signal' = [] then Inl ValueError else Inr signal')
      | _ \<Rightarrow> Inl ValueError)"

text \<open>Python's \<^verbatim>\<open>callable(x)\<close> on these objects.\<close>

definition callable :: "pyobj \<Rightarrow> bool" where
  "callable x = (case x of PyFunc _ \<Rightarrow> True | _ \<Rightarrow> False)"

text \<open>
  The loop of \<^verbatim>\<open>handle_dispath_message\<close> over the subscribers of a signal. A callable
  subscriber is invoked, and may raise. For a subscriber that is not callable the call
  expression raises TypeError and nothing is invoked. The bare \<^verbatim>\<open>except:\<close> around each
  call logs whatever was raised and the loop goes on.
\<close>

fun call_subscribers ::
  "'j env \<Rightarrow> string \<Rightarrow> 'j \<Rightarrow> string \<Rightarrow> pyobj list \<Rightarrow> 'j event list" where
  "call_subscribers E endpoint data reply_to [] = []"
| "call_subscribers E endpoint data reply_to (signal_subscriber # rest) =
     (let reply = (if reply_to \<noteq> ''0'' then Some reply_to else None) in
      (case signal_subscriber of
         PyFunc f \<Rightarrow>
           Call signal_subscriber endpoint data reply #
           (if cb_raises E f endpoint data reply
            then [Log LException ''handle_dispath_message: the callback for signal has errored - '']
            else [])
       | _ \<Rightarrow> [Log LException ''handle_dispath_message: the callback for signal has errored - '']) @
      call_subscribers E endpoint data reply_to rest)"

definition handle_dispath_message ::
  "'j env \<Rightarrow> register \<Rightarrow> string \<Rightarrow> pyobj \<Rightarrow> 'j \<Rightarrow> string
     \<Rightarrow> (error + unit) \<times> register \<times> 'j event list" where
  "handle_dispath_message E self endpoint signal data reply_to =
     (case validate_signal signal of
        Inl e \<Rightarrow> (Inl e, self, [])
      | Inr signal' \<Rightarrow>
          (case subscriptions self signal' of
             Some subscribers \<Rightarrow>
               (Inr (), self, call_subscribers E endpoint data reply_to subscribers)
           | None \<Rightarrow> (Inr (), self, [])))"

definition handle_hub_present_message ::
  "register \<Rightarrow> 'j \<Rightarrow> (error + unit) \<times> register \<times> 'j event list" where
  "handle_hub_present_message self payload = (Inr (), self, [])"

text \<open>
  What \<^verbatim>\<open>len(message)\<close>, \<^verbatim>\<open>message[0]\<close> and \<^verbatim>\<open>message[1:]\<close> see of a message: the
  items of a list or tuple, the one-character strings of a string, and nothing
  (\<^verbatim>\<open>len\<close> raises TypeError) for an object without a length.
\<close>

definition fields_of :: "pyobj \<Rightarrow> string list option" where
  "fields_of message =
     (case message of
        PyList m \<Rightarrow> Some m
      | PyTuple m \<Rightarrow> Some m
      | PyStr s \<Rightarrow> Some (map (\<lambda>c. [c]) s)
      | _ \<Rightarrow> None)"

text \<open>
  \<^verbatim>\<open>Register.message_handler\<close>. Unpacking \<^verbatim>\<open>command_args\<close> into four names raises
  ValueError unless there are exactly four; so does \<^verbatim>\<open>json.loads\<close> on text that is
  not JSON. The handlers \<^verbatim>\<open>except IndexError\<close> take neither. \<^verbatim>\<open>command_args[0]\<close>
  on no arguments raises IndexError. In the last branch the log text is built with
  \<^verbatim>\<open>"... <%s>" % message\<close>: when \<^verbatim>\<open>message\<close> is a tuple, \<^verbatim>\<open>%\<close> takes its items for the
  arguments of the format, and the empty tuple has none for \<^verbatim>\<open>%s\<close>, which raises
  TypeError before anything is logged.
\<close>

definition message_handler ::
  "'j env \<Rightarrow> register \<Rightarrow> pyobj \<Rightarrow> (error + unit) \<times> register \<times> 'j event list" where
  "message_handler E self message =
     (case fields_of message of
        None \<Rightarrow> (Inl TypeError, self, [])
      | Some (command0 # command_args) \<Rightarrow>
          (let command = (if command0 \<noteq> [] then lower (strip command0) else command0) in
           if command = ''dispatch'' then
             (case command_args of
                [endpoint, signal, data, reply_to] \<Rightarrow>
                  (case json_loads E data of
                     None \<Rightarrow> (Inl ValueError, self, [])
                   | Some data' \<Rightarrow>
                       handle_dispath_message E self endpoint (PyStr signal) data' reply_to)
              | _ \<Rightarrow> (Inl ValueError, self, []))
           else if command = ''hub_present'' then
             (case command_args of
                [] \<Rightarrow>
                  (Inr (), self,
                   [Log LError ''message_handler: no version data found in hub present message!''])
              | a # _ \<Rightarrow>
                  (case json_loads E a of
                     None \<Rightarrow> (Inl ValueError, self, [])
                   | Some data' \<Rightarrow> handle_hub_present_message self data'))
           else if command = ''sync'' then (Inr (), self, [])
           else (Inr (), self, [Log LError ''message_handler: unknown command no action taken.'']))
      | Some [] \<Rightarrow>
          (if isinstance_tuple message then (Inl TypeError, self, [])
           else (Inr (), self, [Log LError ''message_handler: invalid message''])))"

text \<open>
  \<^verbatim>\<open>x in d\<close> for a dict \<open>d\<close> whose keys are strings: it hashes \<open>x\<close>, which raises
  TypeError for a list, and then holds exactly when \<open>x\<close> is a string that is a key.
\<close>

definition hashable :: "pyobj \<Rightarrow> bool" where
  "hashable x = (case x of PyList _ \<Rightarrow> False | _ \<Rightarrow> True)"

definition in_keys :: "pyobj \<Rightarrow> (string \<rightharpoonup> 'v) \<Rightarrow> bool" where
  "in_keys x d = (case x of PyStr k \<Rightarrow> d k \<noteq> None | _ \<Rightarrow> False)"

text \<open>
  \<^verbatim>\<open>Register.subscribe\<close>. The second test is \<^verbatim>\<open>callback not in self._subscriptions\<close>:
  the callback is looked up among the keys of the table, the signals, and not in the
  list of the signal.
\<close>

definition subscribe ::
  "register \<Rightarrow> pyobj \<Rightarrow> pyobj \<Rightarrow> (error + unit) \<times> register \<times> 'j event list" where
  "subscribe self signal callback =
     (case validate_signal signal of
        Inl e \<Rightarrow> (Inl e, self, [])
      | Inr signal' \<Rightarrow>
          (let subs = (case subscriptions self signal' of
                         None \<Rightarrow> (subscriptions self)(signal' \<mapsto> [])
                       | Some _ \<Rightarrow> subscriptions self);
               self1 = self\<lparr>subscriptions := subs\<rparr> in
           if \<not> hashable callback then (Inl TypeError, self1, [])
           else if \<not> in_keys callback subs then
             (case subs signal' of
                Some l \<Rightarrow> (Inr (), self\<lparr>subscriptions := subs(signal' \<mapsto> l @ [callback])\<rparr>, [])
              | None \<Rightarrow> (Inl KeyError, self1, []))
           else
             (Inr (), self1,
              [Log LWarn ''subscribe: The callback is already subscribed. Ignoring request.''])))"

text \<open>\<^verbatim>\<open>Register.unsubscribe\<close> has a docstring and no body.\<close>

definition unsubscribe ::
  "register \<Rightarrow> pyobj \<Rightarrow> pyobj \<Rightarrow> (error + unit) \<times> register \<times> 'j event list" where
  "unsubscribe self signal callback = (Inr (), self, [])"

text \<open>
  \<^verbatim>\<open>Register.publish\<close>: the signal goes to \<^verbatim>\<open>frames.dispatch_message\<close> as it was
  given, with no reply-to argument, and the frame goes to the transceiver.
\<close>

definition publish ::
  "'j env \<Rightarrow> register \<Rightarrow> string \<Rightarrow> 'j \<Rightarrow> (error + unit) \<times> register \<times> 'j event list" where
  "publish E self signal data =
     (let dispatch = dispatch_message E (endpoint_uuid self) signal data None in
      case message_out E (transceiver self) (PyList dispatch) of
        (r, evs) \<Rightarrow> (r, self, evs))"

text \<open>
  The bound method \<^verbatim>\<open>self.message_handler\<close> that \<^verbatim>\<open>Register.__init__\<close> gives to the
  transceiver it creates.
\<close>

definition bound_message_handler ::
  "'j env \<Rightarrow> pyobj \<Rightarrow> register \<Rightarrow> (error + unit) \<times> register \<times> 'j event list" where
  "bound_message_handler E message self = message_handler E self message"

subsection \<open>Reading the events\<close>

text \<open>The three parts of what a method returns.\<close>

type_synonym 'j outcome = "(error + unit) \<times> register \<times> 'j event list"

definition result_of :: "'r \<times> 's \<times> 'e \<Rightarrow> 'r" where
  "result_of out = fst out"

definition self_after :: "'r \<times> 's \<times> 'e \<Rightarrow> 's" where
  "self_after out = fst (snd out)"

definition events_of :: "'r \<times> 's \<times> 'e \<Rightarrow> 'e" where
  "events_of out = snd (snd out)"

text \<open>The callback invocations among the events of a call, in order, with their arguments.\<close>

fun invocations :: "'j event list \<Rightarrow> (pyobj \<times> string \<times> 'j \<times> string option) list" where
  "invocations [] = []"
| "invocations (Call cb endpoint data reply # evs) = (cb, endpoint, data, reply) # invocations evs"
| "invocations (_ # evs) = invocations evs"

text \<open>
  Two environments to run the model in. Both take the JSON text itself for the decoded
  value. In \<open>quiet_env\<close> no callback and no socket operation raises; in \<open>faulty_env\<close>
  the callable \<open>PyFunc 1\<close> raises on every call.
\<close>

definition quiet_env :: "string env" where
  "quiet_env =
     \<lparr>json_loads = Some, json_dumps = (\<lambda>d. d),
      cb_raises = (\<lambda>f endpoint data reply. False), zmq_fails = (\<lambda>hist x. False)\<rparr>"

definition faulty_env :: "string env" where
  "faulty_env = quiet_env\<lparr>cb_raises := (\<lambda>f endpoint data reply. f = 1)\<rparr>"

text \<open>
  Whitespace and letter case as properties of single bytes, by their ASCII codes: the
  blanks are the space and the codes 9 to 13; two bytes are the same letter up to case
  when they are equal or when one is a capital letter (codes 65 to 90) and the other is
  32 above it. They say of which signals the normalization is expected to make one
  signal, without recourse to \<open>strip\<close> and \<open>upper\<close>.
\<close>

definition ascii_space :: "char \<Rightarrow> bool" where
  "ascii_space c \<longleftrightarrow>
     (of_char c :: nat) = 32 \<or> (9 \<le> (of_char c :: nat) \<and> (of_char c :: nat) \<le> 13)"

definition ascii_case_variants :: "char \<Rightarrow> char \<Rightarrow> bool" where
  "ascii_case_variants c d \<longleftrightarrow>
     c = d \<or>
     (65 \<le> (of_char c :: nat) \<and> (of_char c :: nat) \<le> 90 \<and> (of_char d :: nat) = of_char c + 32) \<or>
     (65 \<le> (of_char d :: nat) \<and> (of_char d :: nat) \<le> 90 \<and> (of_char c :: nat) = of_char d + 32)"

text \<open>
  The UTF-8 bytes of a word whose last letter is not ASCII, the letter e with an acute
  accent, in small letters and in capitals: that letter is C3 A9 small and C3 89
  capital.
\<close>

definition utf8_cafe_small :: string where
  "utf8_cafe_small = [CHR ''c'', CHR ''a'', CHR ''f'', CHR 0xC3, CHR 0xA9]"

definition utf8_cafe_capital :: string where
  "utf8_cafe_capital = [CHR ''C'', CHR ''A'', CHR ''F'', CHR 0xC3, CHR 0x89]"

text \<open>A register with three callables subscribed to one signal.\<close>

definition tea_register :: register where
  "tea_register =
     (new_register ''e1'')\<lparr>subscriptions := [''TEA_TIME'' \<mapsto> [PyFunc 0, PyFunc 1, PyFunc 2]]\<rparr>"

text \<open>
  A register where a string, which is not callable, was subscribed before a callable:
  \<^verbatim>\<open>subscribe\<close> takes any hashable object.
\<close>

definition mixed_register :: register where
  "mixed_register =
     (new_register ''e1'')\<lparr>subscriptions := [''TEA_TIME'' \<mapsto> [PyStr ''x'', PyFunc 0]]\<rparr>"

section \<open>Properties\<close>

subsection \<open>Byte strings\<close>

lemmas string_evals =
  strip_def isspace_def upper_def upper_char_def lower_def lower_char_def
  ascii_lowercase_def ascii_uppercase_def

lemma isspace_upper_char: "isspace (upper_char c) = isspace c"
  by (auto simp add: isspace_def upper_char_def ascii_lowercase_def ascii_uppercase_def)

lemma strip_upper: "strip (upper s) = upper (strip s)"
proof -
  have comp: "isspace \<circ> upper_char = isspace"
    by (rule ext) (simp add: isspace_upper_char)
  show ?thesis
    by (simp add: strip_def upper_def dropWhile_map rev_map comp)
qed

lemma dropWhile_all: "\<forall>c \<in> set xs. P c \<Longrightarrow> dropWhile P xs = []"
  by (induction xs) auto

lemma strip_left: "\<forall>c \<in> set l. isspace c \<Longrightarrow> strip (l @ s) = strip s"
  by (simp add: strip_def dropWhile_append2)

lemma strip_right:
  assumes r: "\<forall>c \<in> set r. isspace c"
  shows "strip (s @ r) = strip s"
proof (cases "\<forall>c \<in> set s. isspace c")
  case True
  with r have "\<forall>c \<in> set (s @ r). isspace c" by auto
  then have "dropWhile isspace (s @ r) = []" by (rule dropWhile_all)
  moreover from True have "dropWhile isspace s = []" by (rule dropWhile_all)
  ultimately show ?thesis by (simp only: strip_def)
next
  case False
  then obtain x where "x \<in> set s" "\<not> isspace x" by blast
  then have "dropWhile isspace (s @ r) = dropWhile isspace s @ r"
    by (rule dropWhile_append1)
  then have "strip (s @ r) =
      rev (dropWhile isspace (rev r @ rev (dropWhile isspace s)))"
    by (simp only: strip_def rev_append)
  also have "dropWhile isspace (rev r @ rev (dropWhile isspace s)) =
      dropWhile isspace (rev (dropWhile isspace s))"
    using r by (intro dropWhile_append2) simp
  finally show ?thesis by (simp only: strip_def)
qed

lemma strip_surrounding:
  "\<forall>c \<in> set l. isspace c \<Longrightarrow> \<forall>c \<in> set r. isspace c \<Longrightarrow> strip (l @ t @ r) = strip t"
  by (simp add: strip_left strip_right)

lemma ascii_space_isspace: "ascii_space c \<Longrightarrow> isspace c"
proof -
  assume a: "ascii_space c"
  let ?n = "of_char c :: nat"
  from a have "?n = 32 \<or> ?n = 9 \<or> ?n = 10 \<or> ?n = 11 \<or> ?n = 12 \<or> ?n = 13"
    unfolding ascii_space_def by arith
  then have "?n = of_char (CHR '' '') \<or> ?n = of_char (CHR 0x09) \<or> ?n = of_char (CHR 0x0A)
      \<or> ?n = of_char (CHR 0x0B) \<or> ?n = of_char (CHR 0x0C) \<or> ?n = of_char (CHR 0x0D)"
    by simp
  then show ?thesis
    unfolding isspace_def of_char_eq_iff .
qed

lemma isspace_ascii_space: "isspace c \<Longrightarrow> ascii_space c"
  by (auto simp add: isspace_def ascii_space_def)

lemma strip_nonblank:
  assumes "\<exists>c \<in> set s. \<not> ascii_space c"
  shows "strip s \<noteq> []"
proof -
  from assms obtain c where c: "c \<in> set s" "\<not> isspace c"
    using isspace_ascii_space by blast
  let ?ys = "dropWhile isspace s"
  from c have ne: "?ys \<noteq> []"
    by (auto simp add: dropWhile_eq_Nil_conv)
  then have "\<not> isspace (hd ?ys)"
    by (rule hd_dropWhile)
  moreover from ne have "hd ?ys \<in> set (rev ?ys)"
    by simp
  ultimately have "dropWhile isspace (rev ?ys) \<noteq> []"
    by (auto simp only: dropWhile_eq_Nil_conv)
  then show ?thesis
    by (simp add: strip_def)
qed

lemma uppercase_codes: "map of_char ascii_uppercase = [65..<91::nat]"
  by (simp add: ascii_uppercase_def)

lemma lowercase_codes: "map of_char ascii_lowercase = map (\<lambda>k. k + 32) [65..<91::nat]"
  by (simp add: ascii_lowercase_def)

lemma letters_length: "length ascii_uppercase = 26" "length ascii_lowercase = 26"
  by (simp_all add: ascii_uppercase_def ascii_lowercase_def)

lemma distinct_lowercase: "distinct ascii_lowercase"
  by (simp add: ascii_lowercase_def)

lemma capital_and_small:
  assumes lo: "65 \<le> (of_char c :: nat)" and hi: "(of_char c :: nat) \<le> 90"
    and d: "(of_char d :: nat) = of_char c + 32"
  shows "upper_char c = c \<and> upper_char d = c"
proof -
  let ?i = "(of_char c :: nat) - 65"
  from lo hi have i: "?i < 26" by arith
  have code: "[65..<91::nat] ! ?i = of_char c"
  proof -
    from i have "65 + ?i < (91::nat)" by arith
    then have "[65..<91::nat] ! ?i = 65 + ?i" by (rule nth_upt)
    with lo show ?thesis by arith
  qed
  have "(of_char (ascii_uppercase ! ?i) :: nat) = map of_char ascii_uppercase ! ?i"
    using i by (simp add: letters_length)
  also have "\<dots> = of_char c"
    by (simp only: uppercase_codes code)
  finally have up: "ascii_uppercase ! ?i = c"
    by simp
  have "(of_char (ascii_lowercase ! ?i) :: nat) = map of_char ascii_lowercase ! ?i"
    using i by (simp add: letters_length)
  also have "\<dots> = [65..<91::nat] ! ?i + 32"
  proof -
    from i have "?i < length [65..<91::nat]" by simp
    then have "map (\<lambda>k. k + 32) [65..<91::nat] ! ?i = [65..<91::nat] ! ?i + 32"
      by (rule nth_map)
    then show ?thesis by (simp only: lowercase_codes)
  qed
  also have "\<dots> = of_char d"
    by (simp only: code d)
  finally have low: "ascii_lowercase ! ?i = d"
    by simp
  have "map_of (zip ascii_lowercase ascii_uppercase) (ascii_lowercase ! ?i) =
      Some (ascii_uppercase ! ?i)"
    using i by (intro map_of_zip_nth) (simp_all add: letters_length distinct_lowercase)
  then have small: "upper_char d = c"
    by (simp add: upper_char_def up low)
  have "(of_char c :: nat) \<notin> set (map of_char ascii_lowercase)"
    using hi by (simp only: lowercase_codes) auto
  then have "c \<notin> set ascii_lowercase"
    by auto
  then have "map_of (zip ascii_lowercase ascii_uppercase) c = None"
    by (simp add: map_of_zip_is_None letters_length)
  then have "upper_char c = c"
    by (simp add: upper_char_def)
  with small show ?thesis by simp
qed

lemma ascii_case_variants_upper_char:
  assumes "ascii_case_variants c d"
  shows "upper_char c = upper_char d"
proof -
  from assms consider
      (same) "c = d"
    | (capital) "65 \<le> (of_char c :: nat)" "(of_char c :: nat) \<le> 90"
        "(of_char d :: nat) = of_char c + 32"
    | (small) "65 \<le> (of_char d :: nat)" "(of_char d :: nat) \<le> 90"
        "(of_char c :: nat) = of_char d + 32"
    unfolding ascii_case_variants_def by blast
  then show ?thesis
  proof cases
    case same
    then show ?thesis by simp
  next
    case capital
    from capital_and_small [OF capital] show ?thesis by simp
  next
    case small
    from capital_and_small [OF small] show ?thesis by simp
  qed
qed

lemma ascii_case_variants_upper:
  "list_all2 ascii_case_variants s t \<Longrightarrow> upper s = upper t"
  by (induction rule: list_all2_induct)
    (simp_all add: upper_def ascii_case_variants_upper_char)

lemma validate_signal_surrounding:
  assumes "\<forall>c \<in> set l. isspace c" "\<forall>c \<in> set r. isspace c"
  shows "validate_signal (PyStr (l @ t @ r)) =
    (if strip (upper t) = [] then Inl ValueError else Inr (strip (upper t)))"
  using assms by (simp add: validate_signal_def Let_def strip_surrounding strip_upper)

subsection \<open>The loops\<close>

lemma run_ops_ok: "run_ops fails hist ops = (True, tr) \<Longrightarrow> tr = ops"
  by (induction ops arbitrary: hist tr) (auto split: if_splits prod.splits)

lemma call_subscribers_append:
  "call_subscribers E ep d rt (xs @ ys) =
     call_subscribers E ep d rt xs @ call_subscribers E ep d rt ys"
  by (induction xs) (simp_all add: Let_def)

lemma callable_simps [simp]:
  "callable (PyFunc f)" "\<not> callable PyNone" "\<not> callable (PyInt n)" "\<not> callable (PyStr s)"
  "\<not> callable (PyList m)" "\<not> callable (PyTuple m)"
  by (simp_all add: callable_def)

lemma invocations_call_subscribers:
  "invocations (call_subscribers E ep d rt cbs) =
     map (\<lambda>cb. (cb, ep, d, if rt = ''0'' then None else Some rt)) (filter callable cbs)"
proof (induction cbs)
  case Nil
  show ?case by simp
next
  case (Cons cb cbs)
  then show ?case
    by (cases cb) (auto simp add: Let_def)
qed

subsection \<open>One step of each method\<close>

lemma outcome_parts [simp]:
  "result_of (r, s, e) = r" "self_after (r, s, e) = s" "events_of (r, s, e) = e"
  by (simp_all add: result_of_def self_after_def events_of_def)

lemma outcome_collapse: "out = (result_of out, self_after out, events_of out)"
  by (simp add: result_of_def self_after_def events_of_def)

lemma subscribe_callable:
  assumes "validate_signal signal = Inr sig"
  shows "subscribe self signal (PyFunc f) =
    (Inr (),
     self\<lparr>subscriptions := (subscriptions self)
        (sig \<mapsto> (case subscriptions self sig of None \<Rightarrow> [] | Some l \<Rightarrow> l) @ [PyFunc f])\<rparr>,
     [])"
  using assms
  by (simp add: subscribe_def hashable_def in_keys_def Let_def split: option.splits)

lemma handle_dispath_message_subscribed:
  assumes "validate_signal signal = Inr sig" "subscriptions self sig = Some cbs"
  shows "handle_dispath_message E self ep signal d rt =
    (Inr (), self, call_subscribers E ep d rt cbs)"
  using assms by (simp add: handle_dispath_message_def)

lemma message_handler_dispatch:
  assumes "fields_of message = Some [command, ep, signal, data, rt]"
    and "command \<noteq> []" "lower (strip command) = ''dispatch''" "json_loads E data = Some d"
  shows "message_handler E self message =
    handle_dispath_message E self ep (PyStr signal) d rt"
  using assms by (simp add: message_handler_def)

lemma fields_of_tuple: "fields_of (PyTuple m) = Some m"
  by (simp add: fields_of_def)

lemma dispatch_command: "lower (strip ''DISPATCH'') = ''dispatch''"
  by (simp add: string_evals)

lemma tea_time_signal: "validate_signal (PyStr ''tea_time'') = Inr ''TEA_TIME''"
  by (simp add: validate_signal_def string_evals)

subsection \<open>The claims\<close>

text \<open>
  C1. The claim: subscribing the same callback to the same signal twice leaves it once
  in the list of the signal, and the second call does nothing. The code does otherwise:
  the test before the append looks the callback up among the signals, so for a callable
  it never finds it, and each call appends. After two calls the callback stands twice
  at the end of the list of the normalized signal, and the second call logs nothing.
\<close>

theorem subscribe_twice_appends_twice:
  assumes sig: "validate_signal signal = Inr sig"
    and first: "subscribe self signal (PyFunc f) = (res1, self1, evs1 :: 'j event list)"
    and second: "subscribe self1 signal (PyFunc f) = (res2, self2, evs2 :: 'j event list)"
  shows "res1 = Inr () \<and> res2 = Inr () \<and> evs2 = [] \<and>
    subscriptions self2 sig =
      Some ((case subscriptions self sig of None \<Rightarrow> [] | Some l \<Rightarrow> l) @ [PyFunc f, PyFunc f])"
proof -
  from first [unfolded subscribe_callable [OF sig]]
  have r1: "res1 = Inr ()"
    and s1: "subscriptions self1 sig =
      Some ((case subscriptions self sig of None \<Rightarrow> [] | Some l \<Rightarrow> l) @ [PyFunc f])"
    by auto
  from second [unfolded subscribe_callable [OF sig]]
  have r2: "res2 = Inr ()" and e2: "evs2 = []"
    and s2: "subscriptions self2 sig =
      Some ((case subscriptions self1 sig of None \<Rightarrow> [] | Some l \<Rightarrow> l) @ [PyFunc f])"
    by auto
  from r1 r2 e2 s1 s2 show ?thesis by simp
qed

theorem subscribe_twice_appends_twice_witness:
  "subscriptions
     (self_after (subscribe
        (self_after (subscribe (new_register ''e1'') (PyStr ''tea_time'') (PyFunc 0) :: string outcome))
        (PyStr ''tea_time'') (PyFunc 0) :: string outcome))
     ''TEA_TIME'' = Some [PyFunc 0, PyFunc 0] \<and>
   invocations (events_of (message_handler quiet_env
     (self_after (subscribe
        (self_after (subscribe (new_register ''e1'') (PyStr ''tea_time'') (PyFunc 0) :: string outcome))
        (PyStr ''tea_time'') (PyFunc 0) :: string outcome))
     (PyTuple [''DISPATCH'', ''e2'', ''tea_time'', ''{}'', ''0'']))) =
     [(PyFunc 0, ''e2'', ''{}'', None), (PyFunc 0, ''e2'', ''{}'', None)]"
proof -
  let ?first = "subscribe (new_register ''e1'') (PyStr ''tea_time'') (PyFunc 0) :: string outcome"
  let ?second = "subscribe (self_after ?first) (PyStr ''tea_time'') (PyFunc 0) :: string outcome"
  have subs: "subscriptions (self_after ?second) ''TEA_TIME'' = Some [PyFunc 0, PyFunc 0]"
    using subscribe_twice_appends_twice
      [OF tea_time_signal outcome_collapse [of ?first] outcome_collapse [of ?second]]
    by (simp add: new_register_def)
  have js: "json_loads quiet_env ''{}'' = Some ''{}''"
    by (simp add: quiet_env_def)
  have cmd: "''DISPATCH'' \<noteq> []"
    by simp
  have "message_handler quiet_env (self_after ?second)
      (PyTuple [''DISPATCH'', ''e2'', ''tea_time'', ''{}'', ''0'']) =
      (Inr (), self_after ?second,
       call_subscribers quiet_env ''e2'' ''{}'' ''0'' [PyFunc 0, PyFunc 0])"
    by (simp only: message_handler_dispatch [OF fields_of_tuple cmd dispatch_command js]
        handle_dispath_message_subscribed [OF tea_time_signal subs])
  with subs show ?thesis
    by (simp add: invocations_call_subscribers)
qed

text \<open>
  C2. The claim: \<^verbatim>\<open>publish\<close> puts the normalized signal into the DISPATCH frame. The code
  does not normalize (or validate) the signal on this path. What holds: the frame that
  \<^verbatim>\<open>publish\<close> hands to \<^verbatim>\<open>message_out\<close> is the list of DISPATCH, the endpoint id
  of the register, the signal as the caller gave it, the JSON text of the data and the
  reply-to sentinel; \<^verbatim>\<open>message_out\<close> never refuses it as a non-sequence, and the
  register is left as it was.
\<close>

theorem publish_sends_signal_as_given:
  "publish E self signal data =
     (result_of (publish E self signal data), self,
      snd (message_out E (transceiver self)
        (PyList [''DISPATCH'', endpoint_uuid self, signal, json_dumps E data, ''0'']))) \<and>
   result_of (publish E self signal data) =
     fst (message_out E (transceiver self)
        (PyList [''DISPATCH'', endpoint_uuid self, signal, json_dumps E data, ''0''])) \<and>
   result_of (publish E self signal data) \<noteq> Inl MessageOutError"
  by (simp add: publish_def dispatch_message_def message_out_def isinstance_list_def
      result_of_def split: prod.splits bool.splits)

text \<open>
  At the signal \<^verbatim>\<open>" tea_time "\<close>, whose normalized form is \<^verbatim>\<open>"TEA_TIME"\<close>, the frame
  sent carries the signal with its blanks and in lower case, and no frame with the
  normalized signal is sent.
\<close>

theorem publish_normalized_signal_counterexample:
  "validate_signal (PyStr '' tea_time '') = Inr ''TEA_TIME'' \<and>
   events_of (publish quiet_env (new_register ''e1'') '' tea_time '' ''{}'') =
     map Net [NewContext, NewSocket, Connect ''tcp://localhost:15567'',
       SendMultipart [''SYNC''],
       SendMultipart [''DISPATCH'', ''e1'', '' tea_time '', ''{}'', ''0''],
       CloseSocket, TermContext] \<and>
   Net (SendMultipart (dispatch_message quiet_env ''e1'' ''TEA_TIME'' ''{}'' None)) \<notin>
     set (events_of (publish quiet_env (new_register ''e1'') '' tea_time '' ''{}''))"
  by (simp add: validate_signal_def string_evals publish_def dispatch_message_def
      message_out_def isinstance_list_def items_def sync_message_def quiet_env_def
      new_register_def new_transceiver_def)

text \<open>
  C3. The claim: a DISPATCH frame with fewer than four argument fields is logged and
  dropped by the handler of the register, and no exception escapes it. The code does
  otherwise: unpacking the arguments into four names raises ValueError, the handler
  takes IndexError only, and the ValueError leaves \<^verbatim>\<open>message_handler\<close> with nothing
  logged.
\<close>

theorem short_dispatch_frame_raises:
  assumes "fields_of message = Some (command # command_args)"
    and "command \<noteq> []" "lower (strip command) = ''dispatch''" "length command_args < 4"
  shows "message_handler E self message = (Inl ValueError, self, [])"
  using assms by (auto simp add: message_handler_def split: list.splits)

theorem short_dispatch_frame_raises_witness:
  "message_handler quiet_env tea_register (PyTuple [''DISPATCH'', ''abc'', ''{}'', ''1'']) =
     (Inl ValueError, tea_register, [])"
  using short_dispatch_frame_raises [OF fields_of_tuple _ dispatch_command,
      of "[''abc'', ''{}'', ''1'']" quiet_env tea_register]
  by simp

text \<open>
  C4. The claim: for all signals that differ only in letter case and in surrounding
  whitespace, subscribing to one and dispatching the other invokes the callback. The
  code normalizes byte strings, and only the ASCII letters and the ASCII blanks. What
  holds: the first signal is \<open>la @ ta @ ra\<close> and the second \<open>lb @ tb @ rb\<close>, where
  \<open>la\<close>, \<open>ra\<close>, \<open>lb\<close> and \<open>rb\<close> are ASCII blanks, \<open>ta\<close> and \<open>tb\<close> agree byte by byte up
  to the case of ASCII letters, and \<open>ta\<close> has a byte that is not a blank (so that the
  signal is valid). After a callable is subscribed to the first, a DISPATCH frame with
  decodable data that carries the second returns normally and invokes the callable with
  the endpoint id of the frame, the decoded data and the reply-to.
\<close>

theorem subscribe_then_dispatch_modulo_normalization:
  assumes blanks: "\<forall>c \<in> set la \<union> set ra \<union> set lb \<union> set rb. ascii_space c"
    and letters: "list_all2 ascii_case_variants ta tb"
    and visible: "\<exists>c \<in> set ta. \<not> ascii_space c"
    and frame: "fields_of message = Some [command, ep, lb @ tb @ rb, data, rt]"
    and cmd: "command \<noteq> []" "lower (strip command) = ''dispatch''"
    and js: "json_loads E data = Some d"
    and sub: "subscribe self (PyStr (la @ ta @ ra)) (PyFunc f) = (res, self', evs :: 'j event list)"
  shows "res = Inr () \<and>
    result_of (message_handler E self' message) = Inr () \<and>
    (PyFunc f, ep, d, if rt = ''0'' then None else Some rt) \<in>
      set (invocations (events_of (message_handler E self' message)))"
proof -
  let ?sig = "strip (upper ta)"
  from blanks have ws: "\<forall>c \<in> set la \<union> set ra \<union> set lb \<union> set rb. isspace c"
    by (blast intro: ascii_space_isspace)
  from letters have core: "upper ta = upper tb"
    by (rule ascii_case_variants_upper)
  from visible have nonblank: "strip ta \<noteq> []"
    by (rule strip_nonblank)
  have ne: "?sig \<noteq> []" using nonblank unfolding strip_upper by (simp add: upper_def)
  have v1: "validate_signal (PyStr (la @ ta @ ra)) = Inr ?sig"
    using ws ne by (simp add: validate_signal_surrounding)
  have v2: "validate_signal (PyStr (lb @ tb @ rb)) = Inr ?sig"
    using ws ne core by (simp add: validate_signal_surrounding)
  let ?old = "case subscriptions self ?sig of None \<Rightarrow> [] | Some l \<Rightarrow> l"
  from sub [unfolded subscribe_callable [OF v1]]
  have res: "res = Inr ()"
    and self': "self' = self\<lparr>subscriptions := (subscriptions self)(?sig \<mapsto> ?old @ [PyFunc f])\<rparr>"
    by simp_all
  have look: "subscriptions self' ?sig = Some (?old @ [PyFunc f])"
    by (simp add: self')
  have "message_handler E self' message =
      (Inr (), self', call_subscribers E ep d rt (?old @ [PyFunc f]))"
    by (simp only: message_handler_dispatch [OF frame cmd js]
        handle_dispath_message_subscribed [OF v2 look])
  then show ?thesis
    using res by (simp add: invocations_call_subscribers)
qed

theorem subscribe_then_dispatch_modulo_normalization_witness:
  "(PyFunc 0, ''e2'', ''{}'', None) \<in>
     set (invocations (events_of (message_handler quiet_env
       (self_after (subscribe (new_register ''e1'') (PyStr ('' '' @ ''tea_time'' @ '' ''))
          (PyFunc 0) :: string outcome))
       (PyTuple [''DISPATCH'', ''e2'', [] @ ''Tea_Time'' @ [CHR 0x0A], ''{}'', ''0'']))))"
proof -
  let ?sub = "subscribe (new_register ''e1'') (PyStr ('' '' @ ''tea_time'' @ '' '')) (PyFunc 0)
    :: string outcome"
  have ws: "\<forall>c \<in> set '' '' \<union> set '' '' \<union> set [] \<union> set [CHR 0x0A]. ascii_space c"
    by (simp add: ascii_space_def)
  have core: "list_all2 ascii_case_variants ''tea_time'' ''Tea_Time''"
    by (simp add: ascii_case_variants_def)
  have nonblank: "\<exists>c \<in> set ''tea_time''. \<not> ascii_space c"
    by (simp add: ascii_space_def)
  have cmd: "''DISPATCH'' \<noteq> []"
    by simp
  have js: "json_loads quiet_env ''{}'' = Some ''{}''"
    by (simp add: quiet_env_def)
  from subscribe_then_dispatch_modulo_normalization
    [OF ws core nonblank
      fields_of_tuple [of "[''DISPATCH'', ''e2'', [] @ ''Tea_Time'' @ [CHR 0x0A], ''{}'', ''0'']"]
      cmd dispatch_command js outcome_collapse [of ?sub]]
  show ?thesis by simp
qed

text \<open>
  The two spellings of \<open>utf8_cafe_small\<close> and \<open>utf8_cafe_capital\<close> differ in letter
  case only. \<^verbatim>\<open>upper\<close> leaves the two bytes of the accented letter as they are, so
  the two signals stay different keys, and a dispatch of the second finds no subscriber:
  the callable subscribed to the first is not invoked.
\<close>

theorem subscribe_then_dispatch_non_ascii_counterexample:
  "validate_signal (PyStr utf8_cafe_small) =
     Inr [CHR ''C'', CHR ''A'', CHR ''F'', CHR 0xC3, CHR 0xA9] \<and>
   validate_signal (PyStr utf8_cafe_capital) = Inr utf8_cafe_capital \<and>
   message_handler quiet_env
     (self_after (subscribe (new_register ''e1'') (PyStr utf8_cafe_small) (PyFunc 0)
        :: string outcome))
     (PyTuple [''DISPATCH'', ''e2'', utf8_cafe_capital, ''{}'', ''0'']) =
     (Inr (),
      self_after (subscribe (new_register ''e1'') (PyStr utf8_cafe_small) (PyFunc 0)
        :: string outcome),
      [])"
proof -
  have v1: "validate_signal (PyStr utf8_cafe_small) =
      Inr [CHR ''C'', CHR ''A'', CHR ''F'', CHR 0xC3, CHR 0xA9]"
    by (simp add: utf8_cafe_small_def validate_signal_def string_evals)
  have v2: "validate_signal (PyStr utf8_cafe_capital) = Inr utf8_cafe_capital"
    by (simp add: utf8_cafe_capital_def validate_signal_def string_evals)
  have js: "json_loads quiet_env ''{}'' = Some ''{}''"
    by (simp add: quiet_env_def)
  have cmd: "''DISPATCH'' \<noteq> []"
    by simp
  let ?self = "self_after (subscribe (new_register ''e1'') (PyStr utf8_cafe_small) (PyFunc 0)
    :: string outcome)"
  have none: "subscriptions ?self utf8_cafe_capital = None"
    by (simp add: subscribe_callable [OF v1] new_register_def utf8_cafe_capital_def)
  have "message_handler quiet_env ?self
      (PyTuple [''DISPATCH'', ''e2'', utf8_cafe_capital, ''{}'', ''0'']) =
      handle_dispath_message quiet_env ?self ''e2'' (PyStr utf8_cafe_capital) ''{}'' ''0''"
    by (rule message_handler_dispatch [OF fields_of_tuple cmd dispatch_command js])
  also have "\<dots> = (Inr (), ?self, [])"
    using v2 none by (simp add: handle_dispath_message_def)
  finally show ?thesis
    using v1 v2 by simp
qed

text \<open>
  C5. A message that is neither a list nor a tuple: \<^verbatim>\<open>message_out\<close> raises
  MessageOutError and does nothing on the network, no context, no socket, no send.
\<close>

theorem message_out_rejects_non_sequence:
  assumes "\<not> isinstance_list x" "\<not> isinstance_tuple x"
  shows "message_out E self x = (Inl MessageOutError, [])"
  using assms by (simp add: message_out_def)

theorem message_out_rejects_non_sequence_witness:
  "message_out quiet_env new_transceiver (PyInt 7) = (Inl MessageOutError, []) \<and>
   message_out quiet_env new_transceiver (PyStr ''DISPATCH'') = (Inl MessageOutError, [])"
proof -
  have "\<not> isinstance_list (PyInt 7)" "\<not> isinstance_tuple (PyInt 7)"
    "\<not> isinstance_list (PyStr ''DISPATCH'')" "\<not> isinstance_tuple (PyStr ''DISPATCH'')"
    by (simp_all add: isinstance_list_def isinstance_tuple_def)
  then show ?thesis
    by (simp add: message_out_rejects_non_sequence)
qed

text \<open>
  C6. A DISPATCH frame with four arguments, decodable data and a valid signal: the
  callbacks invoked are the callable subscribers of the normalized signal, in their
  order, each with the endpoint id and the decoded data of the frame, and with no
  reply-to when the reply-to field is \<^verbatim>\<open>"0"\<close> and with the field itself otherwise.
\<close>

theorem dispatch_reply_to_sentinel:
  assumes frame: "fields_of message = Some [command, ep, signal, data, rt]"
    and cmd: "command \<noteq> []" "lower (strip command) = ''dispatch''"
    and js: "json_loads E data = Some d"
    and sig: "validate_signal (PyStr signal) = Inr sig"
    and subs: "subscriptions self sig = Some cbs"
  shows "invocations (events_of (message_handler E self message)) =
    map (\<lambda>cb. (cb, ep, d, if rt = ''0'' then None else Some rt)) (filter callable cbs)"
  by (simp only: message_handler_dispatch [OF frame cmd js]
      handle_dispath_message_subscribed [OF sig subs] outcome_parts invocations_call_subscribers)

theorem dispatch_reply_to_sentinel_witness:
  "invocations (events_of (message_handler quiet_env tea_register
      (PyTuple [''DISPATCH'', ''e2'', ''tea_time'', ''{}'', ''0'']))) =
     [(PyFunc 0, ''e2'', ''{}'', None), (PyFunc 1, ''e2'', ''{}'', None),
      (PyFunc 2, ''e2'', ''{}'', None)] \<and>
   invocations (events_of (message_handler quiet_env tea_register
      (PyTuple [''DISPATCH'', ''e2'', ''tea_time'', ''{}'', ''00'']))) =
     [(PyFunc 0, ''e2'', ''{}'', Some ''00''), (PyFunc 1, ''e2'', ''{}'', Some ''00''),
      (PyFunc 2, ''e2'', ''{}'', Some ''00'')] \<and>
   invocations (events_of (message_handler quiet_env mixed_register
      (PyTuple [''DISPATCH'', ''e2'', ''tea_time'', ''{}'', ''0'']))) =
     [(PyFunc 0, ''e2'', ''{}'', None)]"
proof -
  have cmd: "''DISPATCH'' \<noteq> []"
    by simp
  have js: "json_loads quiet_env ''{}'' = Some ''{}''"
    by (simp add: quiet_env_def)
  have subs: "subscriptions tea_register ''TEA_TIME'' = Some [PyFunc 0, PyFunc 1, PyFunc 2]"
    by (simp add: tea_register_def)
  have mixed: "subscriptions mixed_register ''TEA_TIME'' = Some [PyStr ''x'', PyFunc 0]"
    by (simp add: mixed_register_def)
  show ?thesis
    using dispatch_reply_to_sentinel
        [OF fields_of_tuple cmd dispatch_command js tea_time_signal subs, of "''e2''" "''0''"]
      dispatch_reply_to_sentinel
        [OF fields_of_tuple cmd dispatch_command js tea_time_signal subs, of "''e2''" "''00''"]
      dispatch_reply_to_sentinel
        [OF fields_of_tuple cmd dispatch_command js tea_time_signal mixed, of "''e2''" "''0''"]
    by simp
qed

text \<open>
  C7. Whatever the handler and the frame, \<^verbatim>\<open>message_in\<close> returns normally. With a
  handler registered, it calls the handler on the frame as received, keeps the state
  and the events of that call, and, when the handler raised, logs the exception after
  them.
\<close>

theorem message_in_never_raises:
  assumes "h message st = (res, st', evs)"
  shows "result_of (message_in handler message st) = Inr () \<and>
    message_in (Some h) message st =
      (Inr (), st',
       Log LDebug ''message_in: message'' # evs @
       (case res of
          Inl e \<Rightarrow> [Log LException ''message_in: Error handling received message - '']
        | Inr u \<Rightarrow> []))"
  using assms
  by (simp add: message_in_def result_of_def split: option.splits sum.splits prod.splits)

theorem message_in_never_raises_witness:
  "message_in (Some (bound_message_handler quiet_env))
      (PyTuple [''DISPATCH'', ''abc'', ''{}'', ''1'']) tea_register =
     (Inr (), tea_register,
      [Log LDebug ''message_in: message'',
       Log LException ''message_in: Error handling received message - ''])"
proof -
  have "bound_message_handler quiet_env (PyTuple [''DISPATCH'', ''abc'', ''{}'', ''1''])
      tea_register = (Inl ValueError, tea_register, [])"
    by (simp add: bound_message_handler_def message_handler_def fields_of_def dispatch_command)
  from message_in_never_raises
    [where h = "bound_message_handler quiet_env"
       and handler = "Some (bound_message_handler quiet_env)", OF this]
  show ?thesis
    by simp
qed

text \<open>
  C8. A dispatch to the subscribers \<open>before @ PyFunc f # later\<close> of a signal, where the
  call of the callable \<open>PyFunc f\<close> raises: the handler returns normally and leaves the
  register as it was; its events are those of the subscribers before it, its call, the
  log of the exception, and those of the subscribers after it, every callable one of
  which is invoked, in order.
\<close>

theorem callback_failure_is_isolated:
  assumes sig: "validate_signal signal = Inr sig"
    and subs: "subscriptions self sig = Some (before @ PyFunc f # later)"
    and raises: "cb_raises E f ep d (if rt = ''0'' then None else Some rt)"
  shows "handle_dispath_message E self ep signal d rt =
      (Inr (), self,
       call_subscribers E ep d rt before @
       [Call (PyFunc f) ep d (if rt = ''0'' then None else Some rt),
        Log LException ''handle_dispath_message: the callback for signal has errored - ''] @
       call_subscribers E ep d rt later) \<and>
    invocations (call_subscribers E ep d rt later) =
      map (\<lambda>cb. (cb, ep, d, if rt = ''0'' then None else Some rt)) (filter callable later)"
proof -
  have "call_subscribers E ep d rt (PyFunc f # later) =
      [Call (PyFunc f) ep d (if rt = ''0'' then None else Some rt),
       Log LException ''handle_dispath_message: the callback for signal has errored - ''] @
      call_subscribers E ep d rt later"
    using raises by (auto simp add: Let_def)
  then show ?thesis
    by (simp only: handle_dispath_message_subscribed [OF sig subs] call_subscribers_append
        invocations_call_subscribers simp_thms)
qed

theorem callback_failure_is_isolated_witness:
  "handle_dispath_message faulty_env tea_register ''e2'' (PyStr ''tea_time'') ''{}'' ''0'' =
     (Inr (), tea_register,
      [Call (PyFunc 0) ''e2'' ''{}'' None,
       Call (PyFunc 1) ''e2'' ''{}'' None,
       Log LException ''handle_dispath_message: the callback for signal has errored - '',
       Call (PyFunc 2) ''e2'' ''{}'' None])"
proof -
  have subs: "subscriptions tea_register ''TEA_TIME'' = Some ([PyFunc 0] @ PyFunc 1 # [PyFunc 2])"
    by (simp add: tea_register_def)
  have raises: "cb_raises faulty_env 1 ''e2'' ''{}'' (if ''0'' = ''0'' then None else Some ''0'')"
    by (simp add: faulty_env_def quiet_env_def)
  from callback_failure_is_isolated [OF tea_time_signal subs raises] show ?thesis
    by (simp add: faulty_env_def quiet_env_def)
qed

text \<open>
  C9. A list or tuple message whose send returns normally: the socket operations are
  a new context and socket, the connect to the outgoing address, the send of the SYNC
  frame, the send of the message, the close of the socket and the end of the context,
  these and no others, in this order.
\<close>

theorem message_out_success_order:
  assumes seq: "isinstance_list message \<or> isinstance_tuple message"
    and ok: "fst (message_out E self message) = Inr ()"
  shows "snd (message_out E self message) =
    map Net [NewContext, NewSocket, Connect (outgoing_uri self), SendMultipart sync_message,
      SendMultipart (items message), CloseSocket, TermContext]"
proof -
  obtain ok0 t0 where r0: "run_ops (zmq_fails E) [] [NewContext, NewSocket] = (ok0, t0)"
    by (cases "run_ops (zmq_fails E) [] [NewContext, NewSocket]")
  obtain ok1 t1 where r1: "run_ops (zmq_fails E) t0
      [Connect (outgoing_uri self), SendMultipart sync_message, SendMultipart (items message)] =
      (ok1, t1)"
    by (cases "run_ops (zmq_fails E) t0
      [Connect (outgoing_uri self), SendMultipart sync_message, SendMultipart (items message)]")
  obtain ok2 t2 where r2: "run_ops (zmq_fails E) (t0 @ t1) [CloseSocket, TermContext] = (ok2, t2)"
    by (cases "run_ops (zmq_fails E) (t0 @ t1) [CloseSocket, TermContext]")
  have ok0: ok0
    using seq ok r0 by (cases ok0) (simp_all add: message_out_def)
  have out: "message_out E self message =
      (if ok1 \<and> ok2 then Inr () else Inl ZMQError, map Net (t0 @ t1 @ t2))"
    using seq r0 r1 r2 ok0 by (simp add: message_out_def)
  with ok have ok12: "ok1 \<and> ok2"
    by (simp split: if_splits)
  from r0 ok0 have "t0 = [NewContext, NewSocket]"
    by (simp add: run_ops_ok)
  moreover from r1 ok12 have "t1 =
      [Connect (outgoing_uri self), SendMultipart sync_message, SendMultipart (items message)]"
    by (simp add: run_ops_ok)
  moreover from r2 ok12 have "t2 = [CloseSocket, TermContext]"
    by (simp add: run_ops_ok)
  ultimately show ?thesis
    using out by simp
qed

theorem message_out_success_order_witness:
  "message_out quiet_env new_transceiver (PyTuple [''DISPATCH'', ''e1'', ''tea_time'', ''{}'', ''0'']) =
     (Inr (),
      map Net [NewContext, NewSocket, Connect ''tcp://localhost:15567'', SendMultipart [''SYNC''],
        SendMultipart [''DISPATCH'', ''e1'', ''tea_time'', ''{}'', ''0''],
        CloseSocket, TermContext])"
proof -
  let ?m = "PyTuple [''DISPATCH'', ''e1'', ''tea_time'', ''{}'', ''0'']"
  have seq: "isinstance_list ?m \<or> isinstance_tuple ?m"
    by (simp add: isinstance_tuple_def)
  have ok: "fst (message_out quiet_env new_transceiver ?m) = Inr ()"
    by (simp add: message_out_def isinstance_tuple_def quiet_env_def)
  from message_out_success_order [OF seq ok] ok show ?thesis
    by (simp add: prod_eq_iff items_def sync_message_def new_transceiver_def)
qed

text \<open>
  C10. The claim: on a frame with no fields the handler logs an error and returns
  without raising. The code does so for the empty list. For the empty tuple, which is
  what the receive loop would hand over, building the log text raises TypeError: the
  handler leaves with the exception and logs nothing. In both cases no callback is
  invoked and the register is as it was.
\<close>

theorem message_handler_empty_tuple_raises:
  "message_handler E self (PyTuple []) = (Inl TypeError, self, []) \<and>
   message_handler E self (PyList []) =
     (Inr (), self, [Log LError ''message_handler: invalid message''])"
  by (simp add: message_handler_def fields_of_def isinstance_tuple_def)

end
